theory Spec2Isabelle
  imports Main "HOL-Library.Word"
begin

section \<open>JavaScript strings\<close>

text \<open>
  \<open>firefight.js\<close> simulates a denied Firebase operation and folds the diagnostic
  transcript of the rule engine into a trace. This theory embeds its transcript parser
  (\<open>processTraceLine\<close>), its error classifier (\<open>isPermissionDenied\<close>), the loop over the
  calls of a request (\<open>_simulateCalls\<close>, \<open>_simulateCall\<close>) and the promise chain that
  serialises requests (\<open>_simulate\<close>).

  A JavaScript string is a sequence of UTF-16 code units. The two markers the parser
  writes, U+2713 and U+2717, are one code unit each. ASCII literals are written
  \<open>js ''...''\<close>.
\<close>

type_synonym codeunit = "16 word"
type_synonym jsstring = "codeunit list"

definition js :: "string \<Rightarrow> jsstring" where
  "js s = map (\<lambda>c. of_nat (of_char c)) s"

definition check_mark :: codeunit where
  "check_mark = 0x2713"

definition ballot_x :: codeunit where
  "ballot_x = 0x2717"

definition startsWith :: "jsstring \<Rightarrow> jsstring \<Rightarrow> bool" where
  "startsWith s p = (take (length p) s = p)"

text \<open>
  The character classes of the regular expressions in \<open>firefight.js\<close>: \<open>\s\<close> is
  ECMAScript's WhiteSpace and LineTerminator, \<open>.\<close> is everything but a LineTerminator
  (no \<open>s\<close> flag is used), \<open>\d\<close> is an ASCII digit.
\<close>

definition is_line_terminator :: "codeunit \<Rightarrow> bool" where
  "is_line_terminator c = (c = 0x0A \<or> c = 0x0D \<or> c = 0x2028 \<or> c = 0x2029)"

definition is_space :: "codeunit \<Rightarrow> bool" where
  "is_space c =
     (c = 0x09 \<or> c = 0x0B \<or> c = 0x0C \<or> c = 0x20 \<or> c = 0xA0 \<or> c = 0x1680 \<or>
      (0x2000 \<le> c \<and> c \<le> 0x200A) \<or> c = 0x202F \<or> c = 0x205F \<or> c = 0x3000 \<or>
      c = 0xFEFF \<or> is_line_terminator c)"

definition is_digit :: "codeunit \<Rightarrow> bool" where
  "is_digit c = (0x30 \<le> c \<and> c \<le> 0x39)"

definition dot :: codeunit where
  "dot = 0x2E"

definition colon :: codeunit where
  "colon = 0x3A"

section \<open>The regular expressions of processTraceLine\<close>

text \<open>
  \<^verbatim>\<open>/^(FIREBASE: \n?)+/\<close>: one or more repetitions of the marker, each optionally
  followed by a newline. \<open>strip_one\<close> is one repetition; the greedy optional newline is
  always taken when present, since the next repetition could not start with it.
\<close>

definition strip_one :: "jsstring \<Rightarrow> jsstring option" where
  "strip_one s =
     (if startsWith s (js ''FIREBASE: '')
      then (let r = drop 10 s in Some (if startsWith r [0x0A] then drop 1 r else r))
      else None)"

function strip_marker :: "jsstring \<Rightarrow> jsstring" where
  "strip_marker s = (case strip_one s of None \<Rightarrow> s | Some r \<Rightarrow> strip_marker r)"
  by pat_completeness auto
termination
proof (relation "measure length")
  fix s r :: jsstring
  assume "strip_one s = Some r"
  then have p: "startsWith s (js ''FIREBASE: '')" and r: "length r \<le> length (drop 10 s)"
    by (auto simp: strip_one_def Let_def split: if_splits)
  from p have "length (take (length (js ''FIREBASE: '')) s) = length (js ''FIREBASE: '')"
    unfolding startsWith_def by (rule arg_cong)
  then have "10 \<le> length s"
    by (simp add: js_def)
  with r show "(r, s) \<in> measure length"
    by simp
qed simp

declare strip_marker.simps [simp del]

text \<open>
  \<^verbatim>\<open>/^\s+([^.]*):(?:\.(read|write|validate):)?.*/g\<close>. The pattern is anchored and has
  no \<open>m\<close> flag, so it matches at most once, at the start. \<open>\s+\<close> takes the leading white
  space (at least one unit; giving some of it back to group 1 finds no new colon, as a
  white-space unit is no colon). \<open>[^.]*\<close> runs up to the first dot and backtracks to the
  last colon before that dot: group 1 is the text between the indent and that colon.
  The optional tag must start right after that colon. \<open>.*\<close> stops at the first line
  terminator; what follows the match stays in the string.
  The result is group 1, group 2 (if it took part) and the text after the match.
\<close>

definition tag_match :: "jsstring \<Rightarrow> jsstring option \<times> jsstring" where
  "tag_match t =
     (if startsWith t (js ''.read:'') then (Some (js ''read''), drop 6 t)
      else if startsWith t (js ''.write:'') then (Some (js ''write''), drop 7 t)
      else if startsWith t (js ''.validate:'') then (Some (js ''validate''), drop 10 t)
      else (None, t))"

definition rule_check_match :: "jsstring \<Rightarrow> (jsstring \<times> jsstring option \<times> jsstring) option" where
  "rule_check_match s =
     (let indent = takeWhile is_space s;
          rest = dropWhile is_space s;
          nodot = takeWhile (\<lambda>c. c \<noteq> dot) rest;
          from_dot = dropWhile (\<lambda>c. c \<noteq> dot) rest
      in if indent = [] \<or> colon \<notin> set nodot then None
         else
           (let g1 = rev (drop 1 (dropWhile (\<lambda>c. c \<noteq> colon) (rev nodot)));
                after_colon = rev (takeWhile (\<lambda>c. c \<noteq> colon) (rev nodot)) @ from_dot;
                tagged = tag_match after_colon
            in Some (g1, fst tagged, dropWhile (\<lambda>c. \<not> is_line_terminator c) (snd tagged))))"

text \<open>
  The replacement callback:
  \<^verbatim>\<open>g2 = g2 || 'read'; if (g2 === 'validate') g2 = 'value'; return ' ' + g2 + ' ' + g1;\<close>
\<close>

definition rule_check_replacement :: "jsstring \<Rightarrow> jsstring option \<Rightarrow> jsstring" where
  "rule_check_replacement g1 g2 =
     (let k = (case g2 of None \<Rightarrow> js ''read'' | Some t \<Rightarrow> t);
          k' = (if k = js ''validate'' then js ''value'' else k)
      in js '' '' @ k' @ js '' '' @ g1)"

definition rewrite_rule_check :: "jsstring \<Rightarrow> jsstring" where
  "rewrite_rule_check s =
     (case rule_check_match s of
        None \<Rightarrow> s
      | Some (g1, g2, remainder) \<Rightarrow> rule_check_replacement g1 g2 @ remainder)"

text \<open>\<^verbatim>\<open>/^\s+/.test(line)\<close>\<close>

definition indented :: "jsstring \<Rightarrow> bool" where
  "indented line = (takeWhile is_space line \<noteq> [])"

text \<open>
  \<^verbatim>\<open>line.match(/^\s+=> (true|false)/)\<close>: the result is group 1, as a Boolean. The
  indent is all of the leading white space, since \<open>=\<close> is no white space.
\<close>

definition outcome_match :: "jsstring \<Rightarrow> bool option" where
  "outcome_match line =
     (let rest = dropWhile is_space line
      in if \<not> indented line then None
         else if startsWith rest (js ''=> true'') then Some True
         else if startsWith rest (js ''=> false'') then Some False
         else None)"

text \<open>\<^verbatim>\<open>/^\d+:\d+: /.test(line)\<close>\<close>

definition location_match :: "jsstring \<Rightarrow> bool" where
  "location_match line =
     (let d1 = takeWhile is_digit line; r1 = dropWhile is_digit line;
          d2 = takeWhile is_digit (drop 1 r1); r2 = dropWhile is_digit (drop 1 r1)
      in d1 \<noteq> [] \<and> startsWith r1 [colon] \<and> d2 \<noteq> [] \<and> startsWith r2 (js '': ''))"

section \<open>Values and thrown values\<close>

text \<open>
  The values the program meets as the \<open>code\<close> or \<open>message\<close> of an error: the
  primitive values \<open>undefined\<close>, \<open>null\<close>, a Boolean, a number or a string. Of a number
  the program only looks at its truthiness; a number is given as an integer or \<open>NaN\<close>
  (a fractional or infinite number behaves as a non-zero integer).
\<close>

datatype jsval = JUndefined | JNull | JBool bool | JNum int | JNaN | JStr jsstring

definition truthy :: "jsval \<Rightarrow> bool" where
  "truthy v =
     (case v of
        JUndefined \<Rightarrow> False
      | JNull \<Rightarrow> False
      | JBool b \<Rightarrow> b
      | JNum n \<Rightarrow> n \<noteq> 0
      | JNaN \<Rightarrow> False
      | JStr s \<Rightarrow> s \<noteq> [])"

text \<open>
  A thrown value, or the value a promise rejects with: \<open>undefined\<close>, \<open>null\<close>, or a value
  given by its \<open>code\<close> and \<open>message\<close> properties and by the string that
  \<^verbatim>\<open>`${e}`\<close> makes of it (an Error object; a thrown string or number has neither
  property). \<open>thrown_text\<close> is that string conversion. A TypeError of the engine has
  no code, and its text is its name and message; the wording of the messages is the
  engine's.
\<close>

datatype thrown =
  ThrownUndefined
  | ThrownNull
  | ErrorObj (err_code: jsval) (err_message: jsval) (err_text: jsstring)

definition thrown_text :: "thrown \<Rightarrow> jsstring" where
  "thrown_text e =
     (case e of
        ThrownUndefined \<Rightarrow> js ''undefined''
      | ThrownNull \<Rightarrow> js ''null''
      | ErrorObj c m t \<Rightarrow> t)"

definition type_error :: "jsstring \<Rightarrow> thrown" where
  "type_error m = ErrorObj JUndefined (JStr m) (js ''TypeError: '' @ m)"

text \<open>Reading property \<open>p\<close> of \<open>undefined\<close> or of \<open>null\<close>.\<close>

definition read_of_undefined :: "jsstring \<Rightarrow> thrown" where
  "read_of_undefined p =
     type_error (js ''Cannot read properties of undefined (reading '' @ [0x27] @ p @ [0x27] @ js '')'')"

definition read_of_null :: "jsstring \<Rightarrow> thrown" where
  "read_of_null p =
     type_error (js ''Cannot read properties of null (reading '' @ [0x27] @ p @ [0x27] @ js '')'')"

section \<open>The trace buffer and the parser cursor\<close>

text \<open>
  \<open>simulationConsoleLogs\<close> is \<open>undefined\<close> when the module is loaded and an array from
  the first \<open>_simulateCall\<close> on; \<open>lastTestIndex\<close> is a number or \<open>undefined\<close>. The source
  indexes the array with \<open>lastTestIndex\<close> whatever it holds, so the model keeps what
  JavaScript keeps of an array: the indexed slots (\<open>None\<close> is a hole, read as
  \<open>undefined\<close>), and the property named \<open>undefined\<close>, which is what
  \<^verbatim>\<open>simulationConsoleLogs[undefined]\<close> reads and writes; it is no element, and
  \<open>length\<close> and \<open>join\<close> do not see it. A write past the end extends the array with holes.
\<close>

record trace_buffer =
  elems :: "jsstring option list"
  undefined_prop :: "jsstring option"

record parser_state =
  simulationConsoleLogs :: "trace_buffer option"
  lastTestIndex :: "nat option"

definition empty_buffer :: trace_buffer where
  "empty_buffer = \<lparr>elems = [], undefined_prop = None\<rparr>"

definition at_cursor :: "trace_buffer \<Rightarrow> nat option \<Rightarrow> jsstring option" where
  "at_cursor b idx =
     (case idx of
        None \<Rightarrow> undefined_prop b
      | Some k \<Rightarrow> (if k < length (elems b) then elems b ! k else None))"

definition put_at_cursor :: "trace_buffer \<Rightarrow> nat option \<Rightarrow> jsstring \<Rightarrow> trace_buffer" where
  "put_at_cursor b idx v =
     (case idx of
        None \<Rightarrow> b\<lparr>undefined_prop := Some v\<rparr>
      | Some k \<Rightarrow>
          (if k < length (elems b) then b\<lparr>elems := (elems b)[k := Some v]\<rparr>
           else b\<lparr>elems := elems b @ replicate (k - length (elems b)) None @ [Some v]\<rparr>))"

text \<open>\<^verbatim>\<open>splice(lastTestIndex, 1)\<close>; an \<open>undefined\<close> start converts to 0.\<close>

definition splice_at_cursor :: "trace_buffer \<Rightarrow> nat option \<Rightarrow> trace_buffer" where
  "splice_at_cursor b idx =
     (let k = (case idx of None \<Rightarrow> 0 | Some k \<Rightarrow> k)
      in b\<lparr>elems := take k (elems b) @ drop (Suc k) (elems b)\<rparr>)"

definition push :: "trace_buffer \<Rightarrow> jsstring \<Rightarrow> trace_buffer" where
  "push b v = b\<lparr>elems := elems b @ [Some v]\<rparr>"

definition pop :: "trace_buffer \<Rightarrow> trace_buffer" where
  "pop b = b\<lparr>elems := butlast (elems b)\<rparr>"

text \<open>
  \<^verbatim>\<open>lastTestIndex === simulationConsoleLogs.length - 1\<close>: on an empty array the right
  side is -1, which no cursor equals.
\<close>

definition cursor_at_last :: "trace_buffer \<Rightarrow> nat option \<Rightarrow> bool" where
  "cursor_at_last b idx = (case idx of None \<Rightarrow> False | Some k \<Rightarrow> Suc k = length (elems b))"

text \<open>String concatenation with a value that may be \<open>undefined\<close>.\<close>

definition to_string :: "jsstring option \<Rightarrow> jsstring" where
  "to_string v = (case v of None \<Rightarrow> js ''undefined'' | Some s \<Rightarrow> s)"

text \<open>The TypeError that calling \<open>startsWith\<close> on \<open>undefined\<close> raises.\<close>

definition startsWith_of_undefined :: thrown where
  "startsWith_of_undefined = read_of_undefined (js ''startsWith'')"

text \<open>
  The cursor as a property key, for the message of the TypeError that indexing an
  \<open>undefined\<close> buffer raises: \<open>undefined\<close>, or the index in decimal.
\<close>

fun decimal :: "nat \<Rightarrow> jsstring" where
  "decimal n =
     (if n < 10 then [0x30 + of_nat n]
      else decimal (n div 10) @ [0x30 + of_nat (n mod 10)])"

declare decimal.simps [simp del]

definition cursor_key :: "nat option \<Rightarrow> jsstring" where
  "cursor_key idx = (case idx of None \<Rightarrow> js ''undefined'' | Some k \<Rightarrow> decimal k)"

section \<open>processTraceLine\<close>

text \<open>
  While \<open>simulationConsoleLogs\<close> is \<open>undefined\<close>, the first thing each branch does with
  it raises a TypeError: indexing it in the outcome branch, reading its \<open>length\<close> in
  the two branches that drop a stale entry, reading its \<open>push\<close> in the branch of the
  location lines. With an array, an exception can only come from the lookup of the
  pending entry's text on a passing outcome.
\<close>

definition processTraceLine :: "jsstring \<Rightarrow> parser_state \<Rightarrow> thrown + parser_state" where
  "processTraceLine raw st =
     (let line = rewrite_rule_check (strip_marker raw);
          idx = lastTestIndex st
      in case simulationConsoleLogs st of
           None \<Rightarrow>
             (if indented line then
                (case outcome_match line of
                   Some outcome \<Rightarrow> Inl (read_of_undefined (cursor_key idx))
                 | None \<Rightarrow> Inl (read_of_undefined (js ''length'')))
              else if location_match line then Inl (read_of_undefined (js ''push''))
              else Inl (read_of_undefined (js ''length'')))
         | Some logs \<Rightarrow>
             (if indented line then
                (case outcome_match line of
                   Some outcome \<Rightarrow>
                     (if outcome \<and> at_cursor logs idx = None then Inl startsWith_of_undefined
                      else if outcome
                              \<and> startsWith (to_string (at_cursor logs idx)) (js '' value'')
                      then Inr \<lparr>simulationConsoleLogs = Some (splice_at_cursor logs idx),
                                lastTestIndex = None\<rparr>
                      else Inr \<lparr>simulationConsoleLogs =
                                  Some (put_at_cursor logs idx
                                    ([0x20, if outcome then check_mark else ballot_x]
                                       @ to_string (at_cursor logs idx))),
                                lastTestIndex = None\<rparr>)
                 | None \<Rightarrow>
                     (let logs' = push (if cursor_at_last logs idx then pop logs else logs) line
                      in Inr \<lparr>simulationConsoleLogs = Some logs',
                               lastTestIndex = Some (length (elems logs') - 1)\<rparr>))
              else if location_match line then
                Inr (st\<lparr>simulationConsoleLogs := Some (push logs (js ''   '' @ line))\<rparr>)
              else
                Inr \<lparr>simulationConsoleLogs =
                        Some (push (if cursor_at_last logs idx then pop logs else logs) line),
                      lastTestIndex = None\<rparr>))"

text \<open>
  Feeding a sequence of raw lines, one call of \<open>processTraceLine\<close> each; an exception
  ends the run.
\<close>

fun consume :: "jsstring list \<Rightarrow> parser_state \<Rightarrow> thrown + parser_state" where
  "consume [] st = Inr st"
| "consume (l # ls) st =
     (case processTraceLine l st of Inl e \<Rightarrow> Inl e | Inr st' \<Rightarrow> consume ls st')"

text \<open>An empty buffer and no cursor.\<close>

definition fresh :: parser_state where
  "fresh = \<lparr>simulationConsoleLogs = Some empty_buffer, lastTestIndex = None\<rparr>"

text \<open>What a run leaves in the indexed slots of the buffer, if it returned.\<close>

definition entries_after :: "thrown + parser_state \<Rightarrow> jsstring option list option" where
  "entries_after r =
     (case r of Inl e \<Rightarrow> None | Inr st \<Rightarrow> map_option elems (simulationConsoleLogs st))"

section \<open>Notions for stating the parser's properties\<close>

text \<open>
  The line as \<open>processTraceLine\<close> sees it after its two replacements, and the branch
  the line takes: a pending check (any indented line that is no outcome), an outcome,
  a numbered location line, or any other top-level line.
\<close>

definition line_of :: "jsstring \<Rightarrow> jsstring" where
  "line_of raw = rewrite_rule_check (strip_marker raw)"

datatype line_class = Pending | Outcome bool | Location | Other

definition classify :: "jsstring \<Rightarrow> line_class" where
  "classify raw =
     (if indented (line_of raw) then
        (case outcome_match (line_of raw) of Some b \<Rightarrow> Outcome b | None \<Rightarrow> Pending)
      else if location_match (line_of raw) then Location else Other)"

text \<open>
  Both branches that push a line first drop the last entry when the cursor points
  at it.
\<close>

definition drop_stale :: "trace_buffer \<Rightarrow> nat option \<Rightarrow> trace_buffer" where
  "drop_stale b idx = (if cursor_at_last b idx then pop b else b)"

text \<open>The cursor is none or an index into the buffer.\<close>

definition cursor_valid :: "parser_state \<Rightarrow> bool" where
  "cursor_valid st =
     (case lastTestIndex st of
        None \<Rightarrow> True
      | Some k \<Rightarrow>
          (case simulationConsoleLogs st of
             None \<Rightarrow> False
           | Some b \<Rightarrow> k < length (elems b)))"

text \<open>The cursor points at an existing entry: an index in range whose slot is no hole.\<close>

definition cursor_on_entry :: "parser_state \<Rightarrow> bool" where
  "cursor_on_entry st =
     (case simulationConsoleLogs st of
        None \<Rightarrow> False
      | Some b \<Rightarrow>
          (case lastTestIndex st of
             None \<Rightarrow> False
           | Some k \<Rightarrow> k < length (elems b) \<and> elems b ! k \<noteq> None))"

text \<open>
  What the lookup \<^verbatim>\<open>simulationConsoleLogs[lastTestIndex]\<close> finds in a state whose buffer
  is an array (\<open>None\<close>: \<open>undefined\<close>, also when there is no array).
\<close>

definition looked_up :: "parser_state \<Rightarrow> jsstring option" where
  "looked_up st =
     (case simulationConsoleLogs st of
        None \<Rightarrow> None
      | Some b \<Rightarrow> at_cursor b (lastTestIndex st))"

text \<open>
  A run over a sequence of lines: \<open>processTraceLine\<close> on each in turn; the run ends at
  the first line on which it throws, and the state then is the one before that line
  (it throws before it writes). \<open>start c\<close> is the state \<open>_simulateCall\<close> starts a
  transcript in: a new empty array, and the cursor \<open>c\<close> that earlier calls left.
  \<open>contents\<close> is what the indexed slots of the buffer hold.
\<close>

fun run :: "jsstring list \<Rightarrow> parser_state \<Rightarrow> parser_state" where
  "run [] st = st"
| "run (l # ls) st =
     (case processTraceLine l st of Inl e \<Rightarrow> st | Inr st' \<Rightarrow> run ls st')"

definition start :: "nat option \<Rightarrow> parser_state" where
  "start c = \<lparr>simulationConsoleLogs = Some empty_buffer, lastTestIndex = c\<rparr>"

definition contents :: "parser_state \<Rightarrow> jsstring option list" where
  "contents st = (case simulationConsoleLogs st of None \<Rightarrow> [] | Some b \<Rightarrow> elems b)"

text \<open>
  Consuming a sequence twice: the first run starts with some cursor \<open>c\<close>; the second
  starts with a new empty array and the cursor the first run left.
\<close>

definition first_run :: "nat option \<Rightarrow> jsstring list \<Rightarrow> parser_state" where
  "first_run c ls = run ls (start c)"

definition second_run :: "nat option \<Rightarrow> jsstring list \<Rightarrow> parser_state" where
  "second_run c ls = run ls (start (lastTestIndex (first_run c ls)))"

text \<open>
  The shape of a sequence up to its first line that is no location line: an outcome
  line comes first (\<open>outcome_before_check\<close>), or a pending check or other top-level
  line does (\<open>check_before_outcome\<close>), or there are location lines only (neither).
  \<open>leading_locations\<close> counts the location lines before that line.
\<close>

fun outcome_before_check :: "jsstring list \<Rightarrow> bool" where
  "outcome_before_check [] = False"
| "outcome_before_check (l # ls) =
     (case classify l of
        Location \<Rightarrow> outcome_before_check ls
      | Outcome b \<Rightarrow> True
      | Pending \<Rightarrow> False
      | Other \<Rightarrow> False)"

fun check_before_outcome :: "jsstring list \<Rightarrow> bool" where
  "check_before_outcome [] = False"
| "check_before_outcome (l # ls) =
     (case classify l of
        Location \<Rightarrow> check_before_outcome ls
      | Outcome b \<Rightarrow> False
      | Pending \<Rightarrow> True
      | Other \<Rightarrow> True)"

fun leading_locations :: "jsstring list \<Rightarrow> nat" where
  "leading_locations [] = 0"
| "leading_locations (l # ls) = (if classify l = Location then Suc (leading_locations ls) else 0)"

text \<open>The cursor is the index of the last of \<open>n\<close> entries.\<close>

definition cursor_is_last_of :: "nat \<Rightarrow> nat option \<Rightarrow> bool" where
  "cursor_is_last_of n c = (case c of None \<Rightarrow> False | Some k \<Rightarrow> Suc k = n)"

text \<open>
  Invariants of a run: the property named \<open>undefined\<close>, if set, starts with a marker
  (so no passing outcome splices on it); the cursor is in range and not below \<open>n\<close>, and
  the first \<open>n\<close> slots stay.
\<close>

definition undefined_prop_marked :: "trace_buffer \<Rightarrow> bool" where
  "undefined_prop_marked b = (\<not> startsWith (to_string (undefined_prop b)) (js '' value''))"

definition cursor_from :: "nat \<Rightarrow> parser_state \<Rightarrow> bool" where
  "cursor_from n st = (case lastTestIndex st of None \<Rightarrow> True | Some k \<Rightarrow> n \<le> k)"

definition kept :: "nat \<Rightarrow> parser_state \<Rightarrow> bool" where
  "kept n st =
     (case simulationConsoleLogs st of
        None \<Rightarrow> False
      | Some b \<Rightarrow>
          n \<le> length (elems b) \<and> undefined_prop_marked b \<and> cursor_from n st
          \<and> cursor_valid st)"

text \<open>
  The state with the entries \<open>A\<close> put below those of the buffer and the cursor moved up
  accordingly.
\<close>

definition shift :: "jsstring option list \<Rightarrow> parser_state \<Rightarrow> parser_state" where
  "shift A st =
     \<lparr>simulationConsoleLogs =
        map_option (\<lambda>b. b\<lparr>elems := A @ elems b\<rparr>) (simulationConsoleLogs st),
      lastTestIndex = map_option (\<lambda>k. length A + k) (lastTestIndex st)\<rparr>"

section \<open>isPermissionDenied\<close>

text \<open>
  \<^verbatim>\<open>const code = error.code || error.message;
  return code && code.toLowerCase() === 'permission_denied';\<close>
  Reading \<open>code\<close> of \<open>undefined\<close> or \<open>null\<close> raises a TypeError. \<open>||\<close> takes the message
  when the code is falsy: \<open>undefined\<close>, \<open>null\<close>, \<open>false\<close>, 0, \<open>NaN\<close> or the empty string.
  \<open>&&\<close> returns a falsy \<open>code\<close> itself. A truthy \<open>code\<close> that is no string (\<open>true\<close>, a
  non-zero number) has no \<open>toLowerCase\<close>, and calling it raises a TypeError.
  \<open>toLowerCase\<close> is modelled on the ASCII letters; the comparison with
  \<open>'permission_denied'\<close> needs no more, since no other code unit has a letter of that
  word as its lower case.
\<close>

definition to_val :: "jsstring option \<Rightarrow> jsval" where
  "to_val v = (case v of None \<Rightarrow> JUndefined | Some s \<Rightarrow> JStr s)"

definition lower_unit :: "codeunit \<Rightarrow> codeunit" where
  "lower_unit c = (if 0x41 \<le> c \<and> c \<le> 0x5A then c + 0x20 else c)"

definition toLowerCase :: "jsstring \<Rightarrow> jsstring" where
  "toLowerCase s = map lower_unit s"

definition or_else :: "jsval \<Rightarrow> jsval \<Rightarrow> jsval" where
  "or_else a b = (if truthy a then a else b)"

definition toLowerCase_not_a_function :: thrown where
  "toLowerCase_not_a_function = type_error (js ''code.toLowerCase is not a function'')"

definition isPermissionDenied :: "thrown \<Rightarrow> thrown + jsval" where
  "isPermissionDenied error =
     (case error of
        ThrownUndefined \<Rightarrow> Inl (read_of_undefined (js ''code''))
      | ThrownNull \<Rightarrow> Inl (read_of_null (js ''code''))
      | ErrorObj c m t \<Rightarrow>
          (let code = or_else c m
           in if truthy code then
                (case code of
                   JStr s \<Rightarrow> Inr (JBool (toLowerCase s = js ''permission_denied''))
                 | _ \<Rightarrow> Inl toLowerCase_not_a_function)
              else Inr code))"





section \<open>The console hook\<close>

text \<open>
  \<open>Array.prototype.join\<close>: the elements with the separator between them; a hole or
  \<open>undefined\<close> counts as the empty string.
\<close>

fun join :: "jsstring \<Rightarrow> jsstring list \<Rightarrow> jsstring" where
  "join sep [] = []"
| "join sep [x] = x"
| "join sep (x # y # ys) = x @ sep @ join sep (y # ys)"

definition join_buffer :: "jsstring \<Rightarrow> trace_buffer \<Rightarrow> jsstring" where
  "join_buffer sep b = join sep (map (\<lambda>e. case e of None \<Rightarrow> [] | Some s \<Rightarrow> s) (elems b))"

text \<open>
  The function that \<open>interceptConsoleLog\<close> installs as \<open>console.log\<close>. The arguments
  (strings here) are joined by a space; a message without the marker goes to the
  original \<open>console.log\<close>, which does not touch the parser's state.
\<close>

definition console_log :: "jsstring list \<Rightarrow> parser_state \<Rightarrow> thrown + parser_state" where
  "console_log arguments st =
     (let message = join (js '' '') arguments
      in if strip_one message = None then Inr st else processTraceLine message st)"

section \<open>The simulated calls of a request\<close>

text \<open>
  The Firebase client is outside the repository. A call of
  \<^verbatim>\<open>simulatedRef[method].apply(simulatedRef, args)\<close> is given by what the program can observe
  of it: the calls of \<open>console.log\<close> it makes, in order, and whether its promise
  fulfils or rejects, and with what value. An exception of the hook is raised inside
  the client, on the stack of the operation; the model lets it reject the operation,
  with the state as it was before the failing line (\<open>processTraceLine\<close> throws before
  it writes).
\<close>

record call_run =
  logged :: "jsstring list list"
  rejection :: "thrown option"

fun emit :: "jsstring list list \<Rightarrow> parser_state \<Rightarrow> thrown option \<times> parser_state" where
  "emit [] st = (None, st)"
| "emit (m # ms) st =
     (case console_log m st of Inl e \<Rightarrow> (Some e, st) | Inr st' \<Rightarrow> emit ms st')"

definition run_operation :: "call_run \<Rightarrow> parser_state \<Rightarrow> thrown option \<times> parser_state" where
  "run_operation c st =
     (case emit (logged c) st of
        (Some e, st') \<Rightarrow> (Some e, st')
      | (None, st') \<Rightarrow> (rejection c, st'))"

text \<open>\<^verbatim>\<open>simulationConsoleLogs.join('\n')\<close>\<close>

definition join_logs :: "parser_state \<Rightarrow> thrown + jsstring option" where
  "join_logs st =
     (case simulationConsoleLogs st of
        None \<Rightarrow> Inl (read_of_undefined (js ''join''))
      | Some b \<Rightarrow> Inr (Some (join_buffer [0x0A] b)))"

text \<open>
  \<open>_simulateCall\<close>: a new empty buffer (the cursor is not reset), the operation, and in
  the handler the joined buffer or the line about a different error. Without an
  exception of the operation the function returns \<open>undefined\<close> (\<open>None\<close>). An exception
  that \<open>isPermissionDenied\<close> raises in the handler leaves the function (\<open>Inl\<close>).
\<close>

definition simulateCall :: "call_run \<Rightarrow> parser_state \<Rightarrow> (thrown + jsstring option) \<times> parser_state" where
  "simulateCall c st =
     (case run_operation c (st\<lparr>simulationConsoleLogs := Some empty_buffer\<rparr>) of
        (None, st') \<Rightarrow> (Inr None, st')
      | (Some e, st') \<Rightarrow>
          (case isPermissionDenied e of
             Inl x \<Rightarrow> (Inl x, st')
           | Inr v \<Rightarrow>
               (if truthy v then (join_logs st', st')
                else (Inr (Some (js ''Got a different error in simulation: '' @ thrown_text e)),
                      st'))))"

text \<open>
  A request as the program observes it: whether \<open>unauth()\<close> throws, whether
  \<open>authWithCustomToken\<close> rejects, and the runs of its calls.
\<close>

record request_run =
  unauth_throws :: "thrown option"
  auth_rejects :: "thrown option"
  call_runs :: "call_run list"

text \<open>
  The loop of \<open>_simulateCalls\<close>:
  \<^verbatim>\<open>for (const call of calls) { const trace = await this._simulateCall(simulatedRef, call);
    if (trace) traces.push(trace); }\<close>
  An exception of \<open>_simulateCall\<close> ends the loop.
\<close>

fun simulate_loop :: "call_run list \<Rightarrow> jsstring list \<Rightarrow> parser_state
    \<Rightarrow> (thrown + jsstring list) \<times> parser_state" where
  "simulate_loop [] traces st = (Inr traces, st)"
| "simulate_loop (c # cs) traces st =
     (case simulateCall c st of
        (Inl e, st') \<Rightarrow> (Inl e, st')
      | (Inr trace, st') \<Rightarrow>
          simulate_loop cs
            (if truthy (to_val trace) then traces @ [to_string trace] else traces) st')"

text \<open>The body of the \<open>try\<close> block; \<open>Inl\<close> is an exception leaving it.\<close>

definition simulateCalls_body :: "request_run \<Rightarrow> parser_state \<Rightarrow> (thrown + jsstring) \<times> parser_state" where
  "simulateCalls_body r st =
     (case unauth_throws r of
        Some e \<Rightarrow> (Inl e, st)
      | None \<Rightarrow>
          (case auth_rejects r of
             Some e \<Rightarrow> (Inl e, st)
           | None \<Rightarrow>
               (case simulate_loop (call_runs r) [] st of
                  (Inl e, st') \<Rightarrow> (Inl e, st')
                | (Inr traces, st') \<Rightarrow>
                    (if traces = [] then (Inr (js ''Unable to reproduce error in simulation''), st')
                     else (Inr (join [0x0A, 0x0A] traces), st')))))"

text \<open>
  \<open>_simulateCalls\<close>, an async function: \<open>Inl\<close> would be its promise rejecting. The
  \<open>catch\<close> clause turns an exception of the body into a string.
\<close>

definition simulateCalls :: "request_run \<Rightarrow> parser_state \<Rightarrow> (thrown + jsstring) \<times> parser_state" where
  "simulateCalls r st =
     (case simulateCalls_body r st of
        (Inl e, st') \<Rightarrow> (Inr (js ''Error running simulation: '' @ thrown_text e), st')
      | (Inr s, st') \<Rightarrow> (Inr s, st'))"

text \<open>
  What each call returns, in order, the state passing from one call to the next, when
  all calls are executed (\<open>Inr\<close>); \<open>Inl\<close> is the exception of the first call that throws.
  And the traces the calls contribute: the returned values that are truthy.
\<close>

fun call_results :: "call_run list \<Rightarrow> parser_state \<Rightarrow> thrown + jsstring option list" where
  "call_results [] st = Inr []"
| "call_results (c # cs) st =
     (case simulateCall c st of
        (Inl e, st') \<Rightarrow> Inl e
      | (Inr v, st') \<Rightarrow>
          (case call_results cs st' of Inl e \<Rightarrow> Inl e | Inr vs \<Rightarrow> Inr (v # vs)))"

fun contributed :: "jsstring option list \<Rightarrow> jsstring list" where
  "contributed [] = []"
| "contributed (None # vs) = contributed vs"
| "contributed (Some s # vs) = (if s = [] then contributed vs else s # contributed vs)"

section \<open>The simulation queue\<close>

text \<open>
  \<open>simulationQueue\<close> is a chain of promises. A promise is modelled by what settling it
  does: from the state of the world when the chain starts, the outcome it settles with
  and the state it leaves. \<open>then\<close> and \<open>catch\<close> run their callback once the promise has
  settled, fulfilled or rejected respectively, and the promise they return settles as
  the callback's result does; otherwise they pass the outcome on. A task is an async
  function, taken from the state it is started in to its outcome and the state it
  leaves.
\<close>

datatype settled = Fulfilled jsval | Rejected thrown

type_synonym 'w promise = "'w \<Rightarrow> settled \<times> 'w"

definition promise_resolve :: "jsval \<Rightarrow> 'w promise" where
  "promise_resolve v = (\<lambda>w. (Fulfilled v, w))"

definition promise_then :: "'w promise \<Rightarrow> (jsval \<Rightarrow> 'w promise) \<Rightarrow> 'w promise" where
  "promise_then p f =
     (\<lambda>w. case p w of (Fulfilled v, w') \<Rightarrow> f v w' | (Rejected e, w') \<Rightarrow> (Rejected e, w'))"

definition promise_catch :: "'w promise \<Rightarrow> (thrown \<Rightarrow> 'w promise) \<Rightarrow> 'w promise" where
  "promise_catch p h =
     (\<lambda>w. case p w of (Fulfilled v, w') \<Rightarrow> (Fulfilled v, w') | (Rejected e, w') \<Rightarrow> h e w')"

text \<open>
  \<^verbatim>\<open>simulationQueue.catch(() => {/* ignore */}).then(() => task())\<close>
\<close>

definition enqueue :: "'w promise \<Rightarrow> 'w promise \<Rightarrow> 'w promise" where
  "enqueue queue task =
     promise_then (promise_catch queue (\<lambda>e. promise_resolve JUndefined)) (\<lambda>v. task)"

text \<open>\<open>_simulateCalls\<close> as a task.\<close>

definition simulateCalls_task :: "request_run \<Rightarrow> parser_state promise" where
  "simulateCalls_task r =
     (\<lambda>st. case simulateCalls r st of
             (Inl e, st') \<Rightarrow> (Rejected e, st')
           | (Inr s, st') \<Rightarrow> (Fulfilled (JStr s), st'))"

text \<open>
  The module's variables that \<open>_simulate\<close> writes when it is called, and \<open>_simulate\<close>:
  a reference outside the database throws at once; otherwise the hook is installed,
  the task is chained and the new chain is both stored and returned. (The methods of
  \<open>SimulatorProxy\<close> call \<open>this._simulator.simulate\<close>, a name the class does not
  define; what follows is about \<open>_simulate\<close> itself.)
\<close>

record module_state =
  simulationQueue :: "parser_state promise"
  consoleIntercepted :: bool

definition simulate :: "jsstring \<Rightarrow> jsstring \<Rightarrow> request_run \<Rightarrow> module_state
    \<Rightarrow> (thrown + parser_state promise) \<times> module_state" where
  "simulate databaseUrl ref r ms =
     (if \<not> startsWith ref databaseUrl
      then (Inl (ErrorObj JUndefined
                  (JStr (js ''Ref not in database '' @ databaseUrl @ js '': '' @ ref))
                  (js ''Error: Ref not in database '' @ databaseUrl @ js '': '' @ ref)), ms)
      else
        (let queue = enqueue (simulationQueue ms) (simulateCalls_task r)
         in (Inr queue, ms\<lparr>simulationQueue := queue, consoleIntercepted := True\<rparr>)))"

text \<open>Submitting tasks one after the other, and running tasks one after the other.\<close>

definition enqueue_all :: "'w promise \<Rightarrow> 'w promise list \<Rightarrow> 'w promise" where
  "enqueue_all queue tasks = foldl enqueue queue tasks"

definition run_in_order :: "'w promise list \<Rightarrow> 'w \<Rightarrow> 'w" where
  "run_in_order tasks w = foldl (\<lambda>w task. snd (task w)) w tasks"

section \<open>The branches of processTraceLine\<close>

lemma undefined_prop_drop_stale [simp]: "undefined_prop (drop_stale b idx) = undefined_prop b"
  by (simp add: drop_stale_def pop_def)

lemma length_drop_stale:
  "length (elems (drop_stale b idx)) =
     (if cursor_at_last b idx then length (elems b) - 1 else length (elems b))"
  by (simp add: drop_stale_def pop_def)

lemma drop_stale_id: "\<not> cursor_at_last b idx \<Longrightarrow> drop_stale b idx = b"
  by (simp add: drop_stale_def)

lemma process_Location:
  "classify raw = Location \<Longrightarrow> simulationConsoleLogs st = Some b \<Longrightarrow>
   processTraceLine raw st =
     Inr (st\<lparr>simulationConsoleLogs := Some (push b (js ''   '' @ line_of raw))\<rparr>)"
  by (simp add: processTraceLine_def classify_def line_of_def Let_def
      split: if_splits option.splits)

lemma process_Pending:
  "classify raw = Pending \<Longrightarrow> simulationConsoleLogs st = Some b \<Longrightarrow>
   processTraceLine raw st =
     Inr \<lparr>simulationConsoleLogs = Some (push (drop_stale b (lastTestIndex st)) (line_of raw)),
          lastTestIndex = Some (length (elems (drop_stale b (lastTestIndex st))))\<rparr>"
  by (simp add: processTraceLine_def classify_def line_of_def Let_def drop_stale_def push_def
      split: if_splits option.splits)

lemma process_Other:
  "classify raw = Other \<Longrightarrow> simulationConsoleLogs st = Some b \<Longrightarrow>
   processTraceLine raw st =
     Inr \<lparr>simulationConsoleLogs = Some (push (drop_stale b (lastTestIndex st)) (line_of raw)),
          lastTestIndex = None\<rparr>"
  by (simp add: processTraceLine_def classify_def line_of_def Let_def drop_stale_def
      split: if_splits option.splits)

lemma process_Outcome:
  "classify raw = Outcome p \<Longrightarrow> simulationConsoleLogs st = Some b \<Longrightarrow>
   processTraceLine raw st =
     (if p \<and> at_cursor b (lastTestIndex st) = None
      then Inl startsWith_of_undefined
      else if p \<and> startsWith (to_string (at_cursor b (lastTestIndex st))) (js '' value'')
      then Inr \<lparr>simulationConsoleLogs = Some (splice_at_cursor b (lastTestIndex st)),
                lastTestIndex = None\<rparr>
      else Inr \<lparr>simulationConsoleLogs =
                  Some (put_at_cursor b (lastTestIndex st)
                    ([0x20, if p then check_mark else ballot_x]
                       @ to_string (at_cursor b (lastTestIndex st)))),
                lastTestIndex = None\<rparr>)"
  by (simp add: processTraceLine_def classify_def line_of_def Let_def
      split: if_splits option.splits)

lemma process_no_buffer:
  "simulationConsoleLogs st = None \<Longrightarrow> \<exists>e. processTraceLine raw st = Inl e"
  by (simp add: processTraceLine_def Let_def split: option.splits)

lemma process_keeps_buffer:
  "processTraceLine raw st = Inr st' \<Longrightarrow> simulationConsoleLogs st' \<noteq> None"
  by (auto simp: processTraceLine_def Let_def split: option.splits if_splits)

section \<open>Invariants of a run\<close>

lemma marked_not_value:
  "\<not> startsWith (0x20 # check_mark # s) (js '' value'')"
  "\<not> startsWith (0x20 # ballot_x # s) (js '' value'')"
  by (simp_all add: startsWith_def js_def check_mark_def ballot_x_def take_Cons')

lemma kept_drop_stale:
  assumes "kept n st" and "simulationConsoleLogs st = Some b"
  shows "n \<le> length (elems (drop_stale b (lastTestIndex st)))"
proof (cases "cursor_at_last b (lastTestIndex st)")
  case True
  then obtain k where "lastTestIndex st = Some k" "Suc k = length (elems b)"
    by (auto simp: cursor_at_last_def split: option.splits)
  moreover from this assms have "n \<le> k"
    by (simp add: kept_def cursor_from_def)
  ultimately show ?thesis
    using True by (simp add: length_drop_stale)
next
  case False
  with assms show ?thesis
    by (simp add: length_drop_stale kept_def)
qed

lemma kept_step:
  assumes "kept n st" and "processTraceLine l st = Inr st'"
  shows "kept n st'"
proof -
  from assms(1) obtain b where b: "simulationConsoleLogs st = Some b"
    by (auto simp: kept_def split: option.splits)
  from assms(1) b have m: "undefined_prop_marked b"
    by (simp add: kept_def)
  show ?thesis
  proof (cases "classify l")
    case Pending
    with assms(2) b have st': "st' = \<lparr>simulationConsoleLogs =
              Some (push (drop_stale b (lastTestIndex st)) (line_of l)),
            lastTestIndex = Some (length (elems (drop_stale b (lastTestIndex st))))\<rparr>"
      by (simp add: process_Pending)
    from m kept_drop_stale [OF assms(1) b] show ?thesis
      by (simp add: st' kept_def cursor_from_def cursor_valid_def push_def undefined_prop_marked_def)
  next
    case (Outcome p)
    show ?thesis
    proof (cases "lastTestIndex st")
      case None
      with assms Outcome b show ?thesis
        by (auto simp: marked_not_value process_Outcome kept_def cursor_from_def cursor_valid_def
            at_cursor_def put_at_cursor_def undefined_prop_marked_def to_string_def
            split: if_splits)
    next
      case (Some k)
      with assms Outcome b show ?thesis
        by (auto simp: process_Outcome kept_def cursor_from_def cursor_valid_def at_cursor_def
            put_at_cursor_def splice_at_cursor_def undefined_prop_marked_def split: if_splits)
    qed
  next
    case Location
    with assms b show ?thesis
      by (auto simp: process_Location kept_def cursor_from_def cursor_valid_def push_def
          undefined_prop_marked_def split: option.splits)
  next
    case Other
    with assms(2) b have st': "st' = \<lparr>simulationConsoleLogs =
              Some (push (drop_stale b (lastTestIndex st)) (line_of l)),
            lastTestIndex = None\<rparr>"
      by (simp add: process_Other)
    from m kept_drop_stale [OF assms(1) b] show ?thesis
      by (simp add: st' kept_def cursor_from_def cursor_valid_def push_def undefined_prop_marked_def)
  qed
qed

lemma kept_run: "kept n st \<Longrightarrow> kept n (run ls st)"
proof (induction ls arbitrary: st)
  case Nil
  then show ?case by simp
next
  case (Cons l ls)
  then show ?case
    by (auto split: sum.splits dest: kept_step)
qed

lemma leading_bound:
  "simulationConsoleLogs st = Some b \<Longrightarrow> lastTestIndex st = None
   \<Longrightarrow> undefined_prop_marked b
   \<Longrightarrow> cursor_from (length (elems b) + leading_locations ls) (run ls st)"
proof (induction ls arbitrary: st b)
  case Nil
  then show ?case by (simp add: cursor_from_def)
next
  case (Cons l ls)
  show ?case
  proof (cases "classify l = Location")
    case True
    let ?b1 = "push b (js ''   '' @ line_of l)"
    let ?st1 = "st\<lparr>simulationConsoleLogs := Some ?b1\<rparr>"
    have "cursor_from (length (elems ?b1) + leading_locations ls) (run ls ?st1)"
    proof (rule Cons.IH)
      show "simulationConsoleLogs ?st1 = Some ?b1" by simp
      show "lastTestIndex ?st1 = None" using Cons.prems(2) by simp
      show "undefined_prop_marked ?b1"
        using Cons.prems(3) by (simp add: undefined_prop_marked_def push_def)
    qed
    with True Cons.prems(1) show ?thesis
      by (simp add: process_Location push_def)
  next
    case False
    have "kept (length (elems b)) st"
      using Cons.prems by (simp add: kept_def cursor_from_def cursor_valid_def)
    then have "kept (length (elems b)) (run (l # ls) st)"
      by (rule kept_run)
    with False show ?thesis
      by (simp add: kept_def split: option.splits)
  qed
qed


lemma cursor_at_last_iff: "cursor_at_last b c = cursor_is_last_of (length (elems b)) c"
  by (simp add: cursor_at_last_def cursor_is_last_of_def)

lemma step_same_when_same_drop:
  assumes "classify l = Pending \<or> classify l = Other"
    and "simulationConsoleLogs s = Some b" and "simulationConsoleLogs t = Some b"
    and "cursor_at_last b (lastTestIndex s) = cursor_at_last b (lastTestIndex t)"
  shows "\<exists>st'. processTraceLine l s = Inr st' \<and> processTraceLine l t = Inr st'"
  using assms by (auto simp: process_Pending process_Other drop_stale_def)

lemma runs_agree:
  "\<not> outcome_before_check ls \<Longrightarrow> simulationConsoleLogs s = Some b
   \<Longrightarrow> simulationConsoleLogs t = Some b
   \<Longrightarrow> cursor_is_last_of (length (elems b) + leading_locations ls) (lastTestIndex s)
       = cursor_is_last_of (length (elems b) + leading_locations ls) (lastTestIndex t)
   \<Longrightarrow> contents (run ls t) = contents (run ls s)"
proof (induction ls arbitrary: s t b)
  case Nil
  then show ?case by (simp add: contents_def)
next
  case (Cons l ls)
  show ?case
  proof (cases "classify l")
    case Pending
    with Cons.prems have "\<exists>st'. processTraceLine l s = Inr st' \<and> processTraceLine l t = Inr st'"
      by (intro step_same_when_same_drop [where b = b]) (simp_all add: cursor_at_last_iff)
    then show ?thesis by auto
  next
    case (Outcome p)
    with Cons.prems(1) show ?thesis by simp
  next
    case Location
    let ?b1 = "push b (js ''   '' @ line_of l)"
    let ?s1 = "s\<lparr>simulationConsoleLogs := Some ?b1\<rparr>"
    let ?t1 = "t\<lparr>simulationConsoleLogs := Some ?b1\<rparr>"
    have "contents (run ls ?t1) = contents (run ls ?s1)"
    proof (rule Cons.IH)
      show "\<not> outcome_before_check ls"
        using Cons.prems(1) Location by simp
      show "simulationConsoleLogs ?s1 = Some ?b1" "simulationConsoleLogs ?t1 = Some ?b1"
        by simp_all
      show "cursor_is_last_of (length (elems ?b1) + leading_locations ls) (lastTestIndex ?s1)
          = cursor_is_last_of (length (elems ?b1) + leading_locations ls) (lastTestIndex ?t1)"
        using Cons.prems(4) Location by (simp add: push_def)
    qed
    with Location Cons.prems(2,3) show ?thesis
      by (simp add: process_Location)
  next
    case Other
    with Cons.prems have "\<exists>st'. processTraceLine l s = Inr st' \<and> processTraceLine l t = Inr st'"
      by (intro step_same_when_same_drop [where b = b]) (simp_all add: cursor_at_last_iff)
    then show ?thesis by auto
  qed
qed

section \<open>Entries below the cursor do not matter\<close>

lemma shift_step:
  assumes "kept 0 st"
  shows "processTraceLine l (shift A st) = map_sum id (shift A) (processTraceLine l st)"
proof -
  from assms obtain b where b: "simulationConsoleLogs st = Some b"
    by (auto simp: kept_def split: option.splits)
  let ?b' = "b\<lparr>elems := A @ elems b\<rparr>"
  let ?c' = "map_option (\<lambda>k. length A + k) (lastTestIndex st)"
  have sb: "simulationConsoleLogs (shift A st) = Some ?b'"
    and sc: "lastTestIndex (shift A st) = ?c'"
    using b by (simp_all add: shift_def)
  from assms b have m: "undefined_prop_marked b"
    and v: "cursor_valid st"
    by (simp_all add: kept_def)
  have last: "cursor_at_last ?b' ?c' = cursor_at_last b (lastTestIndex st)"
    by (auto simp: cursor_at_last_def split: option.splits)
  have ds: "drop_stale ?b' ?c' = (drop_stale b (lastTestIndex st))\<lparr>elems := A @ elems (drop_stale b (lastTestIndex st))\<rparr>"
  proof (cases "cursor_at_last b (lastTestIndex st)")
    case True
    then have "elems b \<noteq> []"
      by (auto simp: cursor_at_last_def split: option.splits)
    with True last show ?thesis
      by (simp add: drop_stale_def pop_def butlast_append)
  next
    case False
    with last show ?thesis by (simp add: drop_stale_def)
  qed
  have at: "at_cursor ?b' ?c' = at_cursor b (lastTestIndex st)"
    using v b by (auto simp: at_cursor_def cursor_valid_def nth_append split: option.splits)
  show ?thesis
  proof (cases "classify l")
    case Pending
    show ?thesis
      unfolding process_Pending [OF Pending sb] process_Pending [OF Pending b] sc
      by (simp add: ds shift_def push_def)
  next
    case (Outcome p)
    show ?thesis
    proof (cases "lastTestIndex st")
      case None
      with m have "\<not> startsWith (to_string (at_cursor b None)) (js '' value'')"
        by (simp add: undefined_prop_marked_def at_cursor_def)
      with None at show ?thesis
        unfolding process_Outcome [OF Outcome sb] process_Outcome [OF Outcome b] sc
        by (simp add: shift_def put_at_cursor_def)
    next
      case (Some k)
      with v b have k: "k < length (elems b)"
        by (simp add: cursor_valid_def)
      with Some at show ?thesis
        unfolding process_Outcome [OF Outcome sb] process_Outcome [OF Outcome b] sc
        by (simp add: shift_def put_at_cursor_def splice_at_cursor_def list_update_append)
    qed
  next
    case Location
    show ?thesis
      unfolding process_Location [OF Location sb] process_Location [OF Location b]
      by (simp add: shift_def push_def b)
  next
    case Other
    show ?thesis
      unfolding process_Other [OF Other sb] process_Other [OF Other b] sc
      by (simp add: ds shift_def push_def)
  qed
qed

lemma shift_run:
  "kept 0 st \<Longrightarrow> run ls (shift A st) = shift A (run ls st)"
proof (induction ls arbitrary: st)
  case Nil
  then show ?case by simp
next
  case (Cons l ls)
  show ?case
  proof (cases "processTraceLine l st")
    case (Inl e)
    with Cons.prems show ?thesis
      by (simp add: shift_step)
  next
    case (Inr st')
    with Cons.prems have "kept 0 st'"
      by (auto dest: kept_step)
    then have "run ls (shift A st') = shift A (run ls st')"
      by (rule Cons.IH)
    with Inr Cons.prems show ?thesis
      by (simp add: shift_step)
  qed
qed

lemma contents_shift:
  "simulationConsoleLogs st \<noteq> None \<Longrightarrow> contents (shift A st) = A @ contents st"
  by (auto simp: contents_def shift_def)

lemma kept_has_buffer: "kept n st \<Longrightarrow> simulationConsoleLogs st \<noteq> None"
  by (auto simp: kept_def split: option.splits)

text \<open>
  A pending check or other line met with the cursor on the last entry, and met
  with the cursor elsewhere: the first run is the second with one entry less below.
\<close>

lemma dropped_or_not:
  assumes "classify l = Pending \<or> classify l = Other"
    and "simulationConsoleLogs s = Some b" and "simulationConsoleLogs t = Some b"
    and "undefined_prop_marked b"
    and "cursor_at_last b (lastTestIndex s)" and "\<not> cursor_at_last b (lastTestIndex t)"
  shows "\<exists>st0. kept 0 st0 \<and> processTraceLine l s = Inr (shift (butlast (elems b)) st0)
            \<and> processTraceLine l t = Inr (shift (elems b) st0)"
proof -
  let ?top = "\<lparr>elems = [Some (line_of l)], undefined_prop = undefined_prop b\<rparr>"
  from assms(5) have ne: "elems b \<noteq> []"
    by (auto simp: cursor_at_last_def split: option.splits)
  have bs: "push (drop_stale b (lastTestIndex s)) (line_of l)
      = ?top\<lparr>elems := butlast (elems b) @ elems ?top\<rparr>"
    using assms(5) by (simp add: drop_stale_def push_def pop_def)
  have bt: "push (drop_stale b (lastTestIndex t)) (line_of l)
      = ?top\<lparr>elems := elems b @ elems ?top\<rparr>"
    using assms(6) by (simp add: drop_stale_def push_def)
  have ls: "length (elems (drop_stale b (lastTestIndex s))) = length (butlast (elems b))"
    using assms(5) by (simp add: drop_stale_def pop_def)
  have lt: "length (elems (drop_stale b (lastTestIndex t))) = length (elems b)"
    using assms(6) by (simp add: drop_stale_def)
  from assms(1) show ?thesis
  proof
    assume c: "classify l = Pending"
    let ?st0 = "\<lparr>simulationConsoleLogs = Some ?top, lastTestIndex = Some 0\<rparr>"
    have "kept 0 ?st0"
      using assms(4) by (simp add: kept_def cursor_from_def cursor_valid_def undefined_prop_marked_def)
    moreover have "processTraceLine l s = Inr (shift (butlast (elems b)) ?st0)"
      by (simp add: process_Pending [OF c assms(2)] bs ls shift_def)
    moreover have "processTraceLine l t = Inr (shift (elems b) ?st0)"
      by (simp add: process_Pending [OF c assms(3)] bt lt shift_def)
    ultimately show ?thesis by blast
  next
    assume c: "classify l = Other"
    let ?st0 = "\<lparr>simulationConsoleLogs = Some ?top, lastTestIndex = None\<rparr>"
    have "kept 0 ?st0"
      using assms(4) by (simp add: kept_def cursor_from_def cursor_valid_def undefined_prop_marked_def)
    moreover have "processTraceLine l s = Inr (shift (butlast (elems b)) ?st0)"
      by (simp add: process_Other [OF c assms(2)] bs shift_def)
    moreover have "processTraceLine l t = Inr (shift (elems b) ?st0)"
      by (simp add: process_Other [OF c assms(3)] bt shift_def)
    ultimately show ?thesis by blast
  qed
qed

lemma runs_differ:
  "check_before_outcome ls \<Longrightarrow> simulationConsoleLogs s = Some b
   \<Longrightarrow> simulationConsoleLogs t = Some b \<Longrightarrow> undefined_prop_marked b
   \<Longrightarrow> cursor_is_last_of (length (elems b) + leading_locations ls) (lastTestIndex s)
   \<Longrightarrow> \<not> cursor_is_last_of (length (elems b) + leading_locations ls) (lastTestIndex t)
   \<Longrightarrow> length (contents (run ls t)) = Suc (length (contents (run ls s)))"
proof (induction ls arbitrary: s t b)
  case Nil
  then show ?case by simp
next
  case (Cons l ls)
  show ?case
  proof (cases "classify l = Location")
    case True
    let ?b1 = "push b (js ''   '' @ line_of l)"
    let ?s1 = "s\<lparr>simulationConsoleLogs := Some ?b1\<rparr>"
    let ?t1 = "t\<lparr>simulationConsoleLogs := Some ?b1\<rparr>"
    have "length (contents (run ls ?t1)) = Suc (length (contents (run ls ?s1)))"
    proof (rule Cons.IH)
      show "check_before_outcome ls"
        using Cons.prems(1) True by simp
      show "simulationConsoleLogs ?s1 = Some ?b1" "simulationConsoleLogs ?t1 = Some ?b1"
        by simp_all
      show "undefined_prop_marked ?b1"
        using Cons.prems(4) by (simp add: undefined_prop_marked_def push_def)
      show "cursor_is_last_of (length (elems ?b1) + leading_locations ls) (lastTestIndex ?s1)"
        using Cons.prems(5) True by (simp add: push_def)
      show "\<not> cursor_is_last_of (length (elems ?b1) + leading_locations ls) (lastTestIndex ?t1)"
        using Cons.prems(6) True by (simp add: push_def)
    qed
    with True Cons.prems(2,3) show ?thesis
      by (simp add: process_Location)
  next
    case False
    with Cons.prems(1) have c: "classify l = Pending \<or> classify l = Other"
      by (cases "classify l") simp_all
    from False Cons.prems(5,6) have "cursor_at_last b (lastTestIndex s)"
      "\<not> cursor_at_last b (lastTestIndex t)"
      by (simp_all add: cursor_at_last_iff)
    with c Cons.prems(2,3,4) obtain st0 where k: "kept 0 st0"
      and s': "processTraceLine l s = Inr (shift (butlast (elems b)) st0)"
      and t': "processTraceLine l t = Inr (shift (elems b) st0)"
      using dropped_or_not by blast
    from \<open>cursor_at_last b (lastTestIndex s)\<close> have ne: "elems b \<noteq> []"
      by (auto simp: cursor_at_last_def split: option.splits)
    from k have "kept 0 (run ls st0)"
      by (rule kept_run)
    then have hb: "simulationConsoleLogs (run ls st0) \<noteq> None"
      by (rule kept_has_buffer)
    have "length (contents (run (l # ls) t)) = length (elems b) + length (contents (run ls st0))"
      using t' k hb by (simp add: shift_run contents_shift)
    moreover have "length (contents (run (l # ls) s))
        = length (butlast (elems b)) + length (contents (run ls st0))"
      using s' k hb by (simp add: shift_run contents_shift)
    ultimately show ?thesis
      using ne by simp
  qed
qed

section \<open>The loop over the calls\<close>

lemma simulate_loop_results:
  "fst (simulate_loop cs traces st) =
     (case call_results cs st of
        Inl e \<Rightarrow> Inl e
      | Inr vs \<Rightarrow> Inr (traces @ contributed vs))"
proof (induction cs arbitrary: traces st)
  case Nil
  then show ?case by simp
next
  case (Cons c cs)
  obtain res st' where s: "simulateCall c st = (res, st')"
    by (cases "simulateCall c st")
  show ?case
  proof (cases res)
    case (Inl e)
    with s show ?thesis by simp
  next
    case (Inr trace)
    show ?thesis
    proof (cases trace)
      case None
      with s Inr Cons.IH show ?thesis
        by (simp add: truthy_def to_val_def split: sum.splits)
    next
      case (Some t)
      with s Inr Cons.IH show ?thesis
        by (simp add: truthy_def to_val_def to_string_def split: sum.splits)
    qed
  qed
qed

lemma simulateCalls_body_calls:
  assumes "unauth_throws r = None" and "auth_rejects r = None"
  shows "fst (simulateCalls_body r st) =
     (case call_results (call_runs r) st of
        Inl e \<Rightarrow> Inl e
      | Inr vs \<Rightarrow>
          Inr (if contributed vs = []
               then js ''Unable to reproduce error in simulation''
               else join [0x0A, 0x0A] (contributed vs)))"
proof -
  obtain res st' where l: "simulate_loop (call_runs r) [] st = (res, st')"
    by (cases "simulate_loop (call_runs r) [] st")
  then have "res = (case call_results (call_runs r) st of
        Inl e \<Rightarrow> Inl e | Inr vs \<Rightarrow> Inr (contributed vs))"
    using simulate_loop_results [of "call_runs r" "[]" st] by (simp split: sum.splits)
  with assms l show ?thesis
    by (simp add: simulateCalls_body_def split: sum.splits)
qed

lemma simulateCalls_of_body:
  "fst (simulateCalls r st) =
     (case fst (simulateCalls_body r st) of
        Inl e \<Rightarrow> Inr (js ''Error running simulation: '' @ thrown_text e)
      | Inr s \<Rightarrow> Inr s)"
  by (cases "simulateCalls_body r st") (simp add: simulateCalls_def split: sum.splits)

lemma denied_without_diagnostics:
  assumes "logged c = []" and "rejection c = Some e" and "isPermissionDenied e = Inr (JBool True)"
  shows "fst (simulateCall c st) = Inr (Some [])"
  using assms
  by (simp add: simulateCall_def run_operation_def join_logs_def join_buffer_def empty_buffer_def
      truthy_def)


section \<open>The promise chain\<close>

lemma enqueue_settles: "enqueue queue task w = task (snd (queue w))"
  by (cases "queue w"; cases "fst (queue w)")
    (auto simp: enqueue_def promise_then_def promise_catch_def promise_resolve_def)

lemma enqueue_all_runs: "snd (enqueue_all queue tasks w) = run_in_order tasks (snd (queue w))"
proof (induction tasks arbitrary: queue)
  case Nil
  then show ?case by (simp add: enqueue_all_def run_in_order_def)
next
  case (Cons t ts)
  have "snd (enqueue_all (enqueue queue t) ts w) = run_in_order ts (snd (enqueue queue t w))"
    by (rule Cons.IH)
  then show ?case
    by (simp add: enqueue_all_def run_in_order_def enqueue_settles)
qed

section \<open>The parser on the transcripts of the specification\<close>

text \<open>
  C1, as stated: the lines \<open>"  a: .write:x"\<close>, \<open>"  b: .write:y"\<close>, \<open>"  => false"\<close>
  leave exactly one entry, U+2717 followed by \<open>" write b"\<close>. The code leaves another
  entry: the space between the colon and \<open>.write:\<close> keeps the tag out of the match, so
  the kind is the default \<open>read\<close>; and the marker is written after a space. The entry
  is neither the claimed one nor the claimed one after a space.
\<close>

theorem C1_counterexample:
  "entries_after
     (consume [js ''  a: .write:x'', js ''  b: .write:y'', js ''  => false''] fresh)
     \<noteq> Some [Some (ballot_x # js '' write b'')]
   \<and> entries_after
     (consume [js ''  a: .write:x'', js ''  b: .write:y'', js ''  => false''] fresh)
     \<noteq> Some [Some (0x20 # ballot_x # js '' write b'')]"
  by code_simp

text \<open>
  C1, amended: on those three lines the entry pending for \<open>a\<close> is dropped when the
  line for \<open>b\<close> arrives, and the buffer ends with exactly one entry: a space, U+2717
  and \<open>" read b"\<close>. With the tag right after the colon (\<open>"  a:.write:x"\<close>,
  \<open>"  b:.write:y"\<close>) the kind is \<open>write\<close> and the entry is a space, U+2717 and
  \<open>" write b"\<close>.
\<close>

theorem C1_stale_pending_dropped:
  "consume [js ''  a: .write:x''] fresh =
     Inr \<lparr>simulationConsoleLogs = Some \<lparr>elems = [Some (js '' read a'')], undefined_prop = None\<rparr>,
          lastTestIndex = Some 0\<rparr>
   \<and> consume [js ''  a: .write:x'', js ''  b: .write:y''] fresh =
     Inr \<lparr>simulationConsoleLogs = Some \<lparr>elems = [Some (js '' read b'')], undefined_prop = None\<rparr>,
          lastTestIndex = Some 0\<rparr>
   \<and> consume [js ''  a: .write:x'', js ''  b: .write:y'', js ''  => false''] fresh =
     Inr \<lparr>simulationConsoleLogs =
            Some \<lparr>elems = [Some (0x20 # ballot_x # js '' read b'')], undefined_prop = None\<rparr>,
          lastTestIndex = None\<rparr>
   \<and> consume [js ''  a:.write:x''] fresh =
     Inr \<lparr>simulationConsoleLogs = Some \<lparr>elems = [Some (js '' write a'')], undefined_prop = None\<rparr>,
          lastTestIndex = Some 0\<rparr>
   \<and> consume [js ''  a:.write:x'', js ''  b:.write:y''] fresh =
     Inr \<lparr>simulationConsoleLogs = Some \<lparr>elems = [Some (js '' write b'')], undefined_prop = None\<rparr>,
          lastTestIndex = Some 0\<rparr>
   \<and> consume [js ''  a:.write:x'', js ''  b:.write:y'', js ''  => false''] fresh =
     Inr \<lparr>simulationConsoleLogs =
            Some \<lparr>elems = [Some (0x20 # ballot_x # js '' write b'')], undefined_prop = None\<rparr>,
          lastTestIndex = None\<rparr>"
  by code_simp

text \<open>
  C2, as stated: the lines \<open>"  foo: .read:bar"\<close>, \<open>"  => true"\<close> leave exactly one
  entry, U+2713 followed by \<open>" read foo"\<close>. The code writes the marker after a space
  (\<^verbatim>\<open>' \u2713' + entry\<close>), so the entry starts with a space.
\<close>

theorem C2_counterexample:
  "entries_after (consume [js ''  foo: .read:bar'', js ''  => true''] fresh)
     \<noteq> Some [Some (check_mark # js '' read foo'')]"
  by code_simp

text \<open>
  C2, amended: those two lines leave exactly one entry: a space, U+2713 and
  \<open>" read foo"\<close>.
\<close>

theorem C2_passing_read_marked:
  "consume [js ''  foo: .read:bar'', js ''  => true''] fresh =
     Inr \<lparr>simulationConsoleLogs =
            Some \<lparr>elems = [Some (0x20 # check_mark # js '' read foo'')], undefined_prop = None\<rparr>,
          lastTestIndex = None\<rparr>"
  by code_simp

text \<open>
  C3, as stated: the lines \<open>"  foo: .validate:bar"\<close>, \<open>"  => true"\<close> leave the buffer
  empty. They do not: the space after the colon keeps \<open>.validate:\<close> out of the match,
  the pending entry is \<open>" read foo"\<close>, and the outcome marks it.
\<close>

theorem C3_counterexample:
  "entries_after (consume [js ''  foo: .validate:bar'', js ''  => true''] fresh) \<noteq> Some []"
  by code_simp

text \<open>
  C3, amended: with the tag right after the colon, the lines \<open>"  foo:.validate:bar"\<close>,
  \<open>"  => true"\<close> make the pending entry \<open>" value foo"\<close> and the true outcome removes it,
  so the buffer ends empty. With the space after the colon the pending entry is
  \<open>" read foo"\<close> and the buffer ends with one entry: a space, U+2713 and \<open>" read foo"\<close>.
\<close>

theorem C3_passing_value_removed:
  "consume [js ''  foo:.validate:bar''] fresh =
     Inr \<lparr>simulationConsoleLogs = Some \<lparr>elems = [Some (js '' value foo'')], undefined_prop = None\<rparr>,
          lastTestIndex = Some 0\<rparr>
   \<and> consume [js ''  foo:.validate:bar'', js ''  => true''] fresh =
     Inr \<lparr>simulationConsoleLogs = Some \<lparr>elems = [], undefined_prop = None\<rparr>,
          lastTestIndex = None\<rparr>
   \<and> consume [js ''  foo: .validate:bar''] fresh =
     Inr \<lparr>simulationConsoleLogs = Some \<lparr>elems = [Some (js '' read foo'')], undefined_prop = None\<rparr>,
          lastTestIndex = Some 0\<rparr>
   \<and> consume [js ''  foo: .validate:bar'', js ''  => true''] fresh =
     Inr \<lparr>simulationConsoleLogs =
            Some \<lparr>elems = [Some (0x20 # check_mark # js '' read foo'')], undefined_prop = None\<rparr>,
          lastTestIndex = None\<rparr>"
  by code_simp

section \<open>The cursor\<close>

text \<open>
  C9. Cursor validity is an invariant of \<open>processTraceLine\<close>: in a state whose cursor
  is none or an index into the buffer, a call that returns leaves the cursor none or
  an index into the buffer as it then is.
\<close>

theorem C9_cursor_stays_valid:
  assumes "cursor_valid st" and "processTraceLine line st = Inr st'"
  shows "cursor_valid st'"
proof -
  from assms(2) obtain b where b: "simulationConsoleLogs st = Some b"
    using process_no_buffer [of st line] by (cases "simulationConsoleLogs st") auto
  show ?thesis
  proof (cases "classify line")
    case Pending
    with assms b show ?thesis
      by (auto simp: process_Pending cursor_valid_def push_def)
  next
    case (Outcome p)
    with assms b show ?thesis
      by (auto simp: process_Outcome cursor_valid_def split: if_splits)
  next
    case Location
    with assms b show ?thesis
      by (auto simp: process_Location cursor_valid_def push_def split: option.splits)
  next
    case Other
    with assms b show ?thesis
      by (auto simp: process_Other cursor_valid_def)
  qed
qed

theorem C9_cursor_stays_valid_witness:
  "cursor_valid
     \<lparr>simulationConsoleLogs = Some \<lparr>elems = [Some (js '' read a'')], undefined_prop = None\<rparr>,
      lastTestIndex = Some 0\<rparr>
   \<and> processTraceLine (js ''3:4: x'')
       \<lparr>simulationConsoleLogs = Some \<lparr>elems = [Some (js '' read a'')], undefined_prop = None\<rparr>,
        lastTestIndex = Some 0\<rparr>
     = Inr \<lparr>simulationConsoleLogs =
              Some \<lparr>elems = [Some (js '' read a''), Some (js ''   3:4: x'')],
                    undefined_prop = None\<rparr>,
            lastTestIndex = Some 0\<rparr>
   \<and> cursor_valid
       \<lparr>simulationConsoleLogs =
          Some \<lparr>elems = [Some (js '' read a''), Some (js ''   3:4: x'')], undefined_prop = None\<rparr>,
        lastTestIndex = Some 0\<rparr>"
proof -
  have a: "cursor_valid
     \<lparr>simulationConsoleLogs = Some \<lparr>elems = [Some (js '' read a'')], undefined_prop = None\<rparr>,
      lastTestIndex = Some 0\<rparr>"
    by (simp add: cursor_valid_def)
  have b: "processTraceLine (js ''3:4: x'')
       \<lparr>simulationConsoleLogs = Some \<lparr>elems = [Some (js '' read a'')], undefined_prop = None\<rparr>,
        lastTestIndex = Some 0\<rparr>
     = Inr \<lparr>simulationConsoleLogs =
              Some \<lparr>elems = [Some (js '' read a''), Some (js ''   3:4: x'')],
                    undefined_prop = None\<rparr>,
            lastTestIndex = Some 0\<rparr>"
    by code_simp
  from C9_cursor_stays_valid [OF a b] a b show ?thesis
    by simp
qed

text \<open>
  C10, as stated: \<open>processTraceLine\<close> returns for every line and every state when a
  passing outcome finds the cursor on an existing entry, and a passing outcome
  consumed while the cursor is none throws. Neither holds in every state.
  With no cursor the lookup reads the array's property named \<open>undefined\<close>, and a
  failing outcome consumed with no cursor has written that property
  (\<^verbatim>\<open>simulationConsoleLogs[undefined] = ' \u2717' + undefined\<close>): after the line
  \<open>"  => false"\<close> on an empty buffer with no cursor, the cursor is none and the line
  \<open>"  => true"\<close> returns. And while \<open>simulationConsoleLogs\<close> is still \<open>undefined\<close> (the
  hook is installed before the first call assigns an array), the line
  \<open>"FIREBASE: hello"\<close>, which is no outcome, throws (\<open>isl\<close>: the result is an
  exception).
\<close>

theorem C10_counterexample:
  "processTraceLine (js ''  => false'') fresh =
     Inr \<lparr>simulationConsoleLogs =
            Some \<lparr>elems = [], undefined_prop = Some (0x20 # ballot_x # js ''undefined'')\<rparr>,
          lastTestIndex = None\<rparr>
   \<and> processTraceLine (js ''  => true'')
       \<lparr>simulationConsoleLogs =
          Some \<lparr>elems = [], undefined_prop = Some (0x20 # ballot_x # js ''undefined'')\<rparr>,
        lastTestIndex = None\<rparr> =
     Inr \<lparr>simulationConsoleLogs =
            Some \<lparr>elems = [],
                  undefined_prop = Some (0x20 # check_mark # 0x20 # ballot_x # js ''undefined'')\<rparr>,
          lastTestIndex = None\<rparr>
   \<and> classify (js ''FIREBASE: hello'') = Other
   \<and> isl (processTraceLine (js ''FIREBASE: hello'')
            \<lparr>simulationConsoleLogs = None, lastTestIndex = None\<rparr>)"
  by code_simp

text \<open>
  C10, amended. \<open>processTraceLine\<close> returns without throwing exactly when
  \<open>simulationConsoleLogs\<close> is an array and the line is not a passing outcome whose
  lookup \<^verbatim>\<open>simulationConsoleLogs[lastTestIndex]\<close> finds nothing. So, in every state in
  which \<open>simulationConsoleLogs\<close> is an array, it returns for every line provided that
  whenever the line is a passing outcome the cursor points at an existing entry of
  the buffer; a passing outcome consumed with an array while the cursor is none throws
  exactly when the array has no property named \<open>undefined\<close> (none is there until a
  failing outcome is consumed with no cursor); and while \<open>simulationConsoleLogs\<close> is
  \<open>undefined\<close> it throws on every line.
\<close>

theorem C10_returns_unless_lookup_fails:
  "((\<exists>st'. processTraceLine raw st = Inr st')
      = (simulationConsoleLogs st \<noteq> None
         \<and> \<not> (classify raw = Outcome True \<and> looked_up st = None)))
   \<and> (simulationConsoleLogs st \<noteq> None
        \<and> (classify raw = Outcome True \<longrightarrow> cursor_on_entry st)
      \<longrightarrow> (\<exists>st'. processTraceLine raw st = Inr st'))
   \<and> (simulationConsoleLogs st = Some b \<and> classify raw = Outcome True
        \<and> lastTestIndex st = None
      \<longrightarrow> (processTraceLine raw st = Inl startsWith_of_undefined)
            = (undefined_prop b = None))
   \<and> (simulationConsoleLogs st = None \<longrightarrow> (\<exists>e. processTraceLine raw st = Inl e))"
proof -
  have none: "\<exists>e. processTraceLine raw st = Inl e" if "simulationConsoleLogs st = None"
    using that by (rule process_no_buffer)
  have exact: "(\<exists>st'. processTraceLine raw st = Inr st')
      = (simulationConsoleLogs st \<noteq> None
         \<and> \<not> (classify raw = Outcome True \<and> looked_up st = None))"
  proof (cases "simulationConsoleLogs st")
    case None
    with none show ?thesis by auto
  next
    case (Some b')
    then show ?thesis
      by (cases "classify raw")
        (auto simp: process_Pending process_Other process_Location process_Outcome looked_up_def)
  qed
  have claimed: "\<exists>st'. processTraceLine raw st = Inr st'"
    if "simulationConsoleLogs st \<noteq> None" "classify raw = Outcome True \<longrightarrow> cursor_on_entry st"
  proof -
    from that have "\<not> (classify raw = Outcome True \<and> looked_up st = None)"
      by (auto simp: cursor_on_entry_def looked_up_def at_cursor_def split: option.splits)
    with that(1) exact show ?thesis by blast
  qed
  have orphan: "(processTraceLine raw st = Inl startsWith_of_undefined)
            = (undefined_prop b = None)"
    if "simulationConsoleLogs st = Some b" "classify raw = Outcome True" "lastTestIndex st = None"
    using that by (simp add: process_Outcome at_cursor_def)
  from exact claimed orphan none show ?thesis by blast
qed

theorem C10_returns_unless_lookup_fails_witness:
  "classify (js ''  => true'') = Outcome True
   \<and> cursor_on_entry
       \<lparr>simulationConsoleLogs = Some \<lparr>elems = [Some (js '' read a'')], undefined_prop = None\<rparr>,
        lastTestIndex = Some 0\<rparr>
   \<and> (\<exists>st'. processTraceLine (js ''  => true'')
       \<lparr>simulationConsoleLogs = Some \<lparr>elems = [Some (js '' read a'')], undefined_prop = None\<rparr>,
        lastTestIndex = Some 0\<rparr> = Inr st')
   \<and> lastTestIndex fresh = None
   \<and> simulationConsoleLogs fresh = Some empty_buffer
   \<and> undefined_prop empty_buffer = None
   \<and> processTraceLine (js ''  => true'') fresh = Inl startsWith_of_undefined
   \<and> (\<exists>e. processTraceLine (js ''  => true'')
         \<lparr>simulationConsoleLogs = None, lastTestIndex = None\<rparr> = Inl e)"
proof -
  let ?on = "\<lparr>simulationConsoleLogs = Some \<lparr>elems = [Some (js '' read a'')], undefined_prop = None\<rparr>,
        lastTestIndex = Some 0\<rparr>"
  let ?no = "\<lparr>simulationConsoleLogs = None, lastTestIndex = None\<rparr> :: parser_state"
  have c: "classify (js ''  => true'') = Outcome True"
    by code_simp
  have e: "cursor_on_entry ?on"
    by (simp add: cursor_on_entry_def)
  have f: "lastTestIndex fresh = None" "simulationConsoleLogs fresh = Some empty_buffer"
    "undefined_prop empty_buffer = None"
    by (simp_all add: fresh_def empty_buffer_def)
  have "simulationConsoleLogs ?on \<noteq> None"
    by simp
  with C10_returns_unless_lookup_fails [of "js ''  => true''" ?on] e
  have g: "\<exists>st'. processTraceLine (js ''  => true'') ?on = Inr st'"
    by blast
  from C10_returns_unless_lookup_fails [of "js ''  => true''" fresh empty_buffer] c f
  have h: "processTraceLine (js ''  => true'') fresh = Inl startsWith_of_undefined"
    by blast
  have "simulationConsoleLogs ?no = None"
    by simp
  with C10_returns_unless_lookup_fails [of "js ''  => true''" ?no]
  have i: "\<exists>e. processTraceLine (js ''  => true'') ?no = Inl e"
    by blast
  from c e f g h i show ?thesis
    by blast
qed

section \<open>Consuming a transcript twice\<close>

text \<open>
  C8, as stated: every sequence of lines leaves the same buffer contents when it is
  consumed twice, the buffer fresh each time and the cursor carried over. The lines
  \<open>"  => false"\<close>, \<open>"  a:.write:x"\<close> do not, the first run starting with no cursor:
  it writes the orphan outcome to the property named \<open>undefined\<close> and ends with the
  cursor at 0, and the second run writes the orphan outcome to slot 0 of its new
  buffer. Nor do the lines \<open>"1:2: x"\<close>, \<open>"  a:.write:x"\<close>, \<open>"  => false"\<close>,
  \<open>"  b:.write:y"\<close>, the first run starting with the cursor at 0 that an earlier call
  left: it drops the location line, and the second run, starting with the cursor at
  1, keeps it.
\<close>

theorem C8_counterexample:
  "contents (second_run None [js ''  => false'', js ''  a:.write:x''])
     \<noteq> contents (first_run None [js ''  => false'', js ''  a:.write:x''])
   \<and> contents (second_run (Some 0)
         [js ''1:2: x'', js ''  a:.write:x'', js ''  => false'', js ''  b:.write:y''])
     \<noteq> contents (first_run (Some 0)
         [js ''1:2: x'', js ''  a:.write:x'', js ''  => false'', js ''  b:.write:y''])"
  by code_simp

text \<open>
  C8, amended. Take any sequence of lines and any cursor the first run starts with;
  each run starts with an empty buffer, the second with the cursor the first left, and
  a run ends at the first line on which the parser throws. Let \<open>n\<close> be the number of
  location lines at the head of the sequence. Both runs leave the same buffer
  contents
  \<^item> when the first run leaves the cursor as it found it;
  \<^item> when no outcome line comes before the first pending-check or other top-level
    line (location lines aside), and the cursor the first run starts with is \<open>n - 1\<close>
    exactly when the cursor it leaves is; in particular
  \<^item> when no outcome line comes before the first pending-check or other top-level
    line and the first run starts with no cursor.
  When the first line that is no location line is a pending-check or other top-level
  line and exactly one of the two cursors is \<open>n - 1\<close>, the contents differ.
\<close>

theorem C8_second_run_agrees:
  "(lastTestIndex (first_run c ls) = c
      \<longrightarrow> contents (second_run c ls) = contents (first_run c ls))
   \<and> (\<not> outcome_before_check ls
        \<and> cursor_is_last_of (leading_locations ls) (lastTestIndex (first_run c ls))
            = cursor_is_last_of (leading_locations ls) c
      \<longrightarrow> contents (second_run c ls) = contents (first_run c ls))
   \<and> (\<not> outcome_before_check ls
      \<longrightarrow> contents (second_run None ls) = contents (first_run None ls))
   \<and> (check_before_outcome ls
        \<and> cursor_is_last_of (leading_locations ls) (lastTestIndex (first_run c ls))
            \<noteq> cursor_is_last_of (leading_locations ls) c
      \<longrightarrow> contents (second_run c ls) \<noteq> contents (first_run c ls))"
proof -
  let ?c1 = "lastTestIndex (first_run c ls)"
  let ?n = "leading_locations ls"
  have same: "contents (second_run c ls) = contents (first_run c ls)" if "?c1 = c"
    using that by (simp add: second_run_def first_run_def)
  have agree: "contents (second_run c' ls) = contents (first_run c' ls)"
    if "\<not> outcome_before_check ls"
      "cursor_is_last_of ?n (lastTestIndex (first_run c' ls)) = cursor_is_last_of ?n c'" for c'
  proof -
    have "contents (run ls (start (lastTestIndex (first_run c' ls)))) = contents (run ls (start c'))"
      using that
      by (intro runs_agree [where b = empty_buffer]) (simp_all add: start_def empty_buffer_def)
    then show ?thesis
      by (simp add: second_run_def first_run_def)
  qed
  have from_none: "contents (second_run None ls) = contents (first_run None ls)"
    if "\<not> outcome_before_check ls"
  proof -
    have "cursor_from (length (elems empty_buffer) + ?n) (run ls (start None))"
      by (rule leading_bound)
        (simp_all add: start_def empty_buffer_def undefined_prop_marked_def to_string_def
          startsWith_def js_def)
    then have "\<not> cursor_is_last_of ?n (lastTestIndex (first_run None ls))"
      by (auto simp: cursor_from_def cursor_is_last_of_def first_run_def empty_buffer_def
          split: option.splits)
    with that show ?thesis
      by (intro agree) (simp_all add: cursor_is_last_of_def)
  qed
  have m: "undefined_prop_marked empty_buffer"
    by (simp add: empty_buffer_def undefined_prop_marked_def to_string_def startsWith_def js_def)
  have differ: "contents (second_run c ls) \<noteq> contents (first_run c ls)"
    if "check_before_outcome ls" "cursor_is_last_of ?n ?c1 \<noteq> cursor_is_last_of ?n c"
  proof (cases "cursor_is_last_of ?n c")
    case True
    with that(2) have "\<not> cursor_is_last_of ?n ?c1" by simp
    with that(1) True m
    have "length (contents (run ls (start ?c1))) = Suc (length (contents (run ls (start c))))"
      by (intro runs_differ [where b = empty_buffer]) (simp_all add: start_def empty_buffer_def)
    then show ?thesis
      by (auto simp: second_run_def first_run_def)
  next
    case False
    with that(2) have "cursor_is_last_of ?n ?c1" by simp
    with that(1) False m
    have "length (contents (run ls (start c))) = Suc (length (contents (run ls (start ?c1))))"
      by (intro runs_differ [where b = empty_buffer]) (simp_all add: start_def empty_buffer_def)
    then show ?thesis
      by (auto simp: second_run_def first_run_def)
  qed
  from same agree [of c] from_none differ show ?thesis by blast
qed

theorem C8_second_run_agrees_witness:
  "lastTestIndex (first_run None [js ''  => false'']) = None
   \<and> contents (second_run None [js ''  => false''])
       = contents (first_run None [js ''  => false''])
   \<and> \<not> outcome_before_check [js ''1:2: x'', js ''  a:.write:x'']
   \<and> cursor_is_last_of (leading_locations [js ''1:2: x'', js ''  a:.write:x''])
         (lastTestIndex (first_run (Some 0) [js ''1:2: x'', js ''  a:.write:x'']))
   \<and> cursor_is_last_of (leading_locations [js ''1:2: x'', js ''  a:.write:x'']) (Some 0)
   \<and> contents (second_run (Some 0) [js ''1:2: x'', js ''  a:.write:x''])
       = contents (first_run (Some 0) [js ''1:2: x'', js ''  a:.write:x''])
   \<and> contents (first_run (Some 0) [js ''1:2: x'', js ''  a:.write:x''])
       = [Some (js '' write a'')]
   \<and> \<not> outcome_before_check
         [js ''1:2: x'', js ''  a:.write:x'', js ''  => false'', js ''  b:.write:y'']
   \<and> contents (second_run None
         [js ''1:2: x'', js ''  a:.write:x'', js ''  => false'', js ''  b:.write:y''])
       = contents (first_run None
         [js ''1:2: x'', js ''  a:.write:x'', js ''  => false'', js ''  b:.write:y''])
   \<and> contents (first_run None
         [js ''1:2: x'', js ''  a:.write:x'', js ''  => false'', js ''  b:.write:y''])
       = [Some (js ''   1:2: x''), Some (0x20 # ballot_x # js '' write a''),
          Some (js '' write b'')]
   \<and> check_before_outcome
         [js ''1:2: x'', js ''  a:.write:x'', js ''  => false'', js ''  b:.write:y'']
   \<and> \<not> cursor_is_last_of
         (leading_locations
            [js ''1:2: x'', js ''  a:.write:x'', js ''  => false'', js ''  b:.write:y''])
         (lastTestIndex (first_run (Some 0)
            [js ''1:2: x'', js ''  a:.write:x'', js ''  => false'', js ''  b:.write:y'']))
   \<and> contents (second_run (Some 0)
         [js ''1:2: x'', js ''  a:.write:x'', js ''  => false'', js ''  b:.write:y''])
       \<noteq> contents (first_run (Some 0)
         [js ''1:2: x'', js ''  a:.write:x'', js ''  => false'', js ''  b:.write:y''])"
proof -
  let ?o = "[js ''  => false'']"
  let ?p = "[js ''1:2: x'', js ''  a:.write:x'']"
  let ?w = "[js ''1:2: x'', js ''  a:.write:x'', js ''  => false'', js ''  b:.write:y'']"
  have o1: "lastTestIndex (first_run None ?o) = None"
    by code_simp
  from C8_second_run_agrees [of None ?o] o1
  have o2: "contents (second_run None ?o) = contents (first_run None ?o)"
    by blast
  have p1: "\<not> outcome_before_check ?p"
    by code_simp
  have p2: "cursor_is_last_of (leading_locations ?p) (lastTestIndex (first_run (Some 0) ?p))"
    by code_simp
  have p3: "cursor_is_last_of (leading_locations ?p) (Some 0)"
    by code_simp
  from C8_second_run_agrees [of "Some 0" ?p] p1 p2 p3
  have p4: "contents (second_run (Some 0) ?p) = contents (first_run (Some 0) ?p)"
    by blast
  have p5: "contents (first_run (Some 0) ?p) = [Some (js '' write a'')]"
    by code_simp
  have w1: "\<not> outcome_before_check ?w"
    by code_simp
  from C8_second_run_agrees [of None ?w] w1
  have w2: "contents (second_run None ?w) = contents (first_run None ?w)"
    by blast
  have w3: "contents (first_run None ?w)
       = [Some (js ''   1:2: x''), Some (0x20 # ballot_x # js '' write a''),
          Some (js '' write b'')]"
    by code_simp
  have w4: "check_before_outcome ?w"
    by code_simp
  have w5: "\<not> cursor_is_last_of (leading_locations ?w) (lastTestIndex (first_run (Some 0) ?w))"
    by code_simp
  have w6: "cursor_is_last_of (leading_locations ?w) (Some 0)"
    by code_simp
  from C8_second_run_agrees [of "Some 0" ?w] w4 w5 w6
  have w7: "contents (second_run (Some 0) ?w) \<noteq> contents (first_run (Some 0) ?w)"
    by blast
  from o1 o2 p1 p2 p3 p4 p5 w1 w2 w3 w4 w5 w7 show ?thesis
    by blast
qed

section \<open>The classifier\<close>



section \<open>The result of a request\<close>

text \<open>
  C4. When \<open>unauth\<close> and the authentication raise nothing and all calls are executed
  (none throws out of \<open>_simulateCall\<close>), \<open>_simulateCalls\<close> returns the fixed string if no
  call contributed a trace, and otherwise the contributed traces, in the order of the
  calls, joined by two newlines. (If a call throws out of \<open>_simulateCall\<close>, the loop ends
  there and the result is the string about an error running the simulation.) A single
  call that is denied with no diagnostic line logged contributes nothing (its joined
  buffer is the empty string), so the result is the fixed string.
\<close>

theorem C4_result_of_calls:
  assumes "unauth_throws r = None" and "auth_rejects r = None"
  shows "fst (simulateCalls r st) =
           (case call_results (call_runs r) st of
              Inl x \<Rightarrow> Inr (js ''Error running simulation: '' @ thrown_text x)
            | Inr vs \<Rightarrow>
                Inr (if contributed vs = []
                     then js ''Unable to reproduce error in simulation''
                     else join [0x0A, 0x0A] (contributed vs)))
         \<and> (call_runs r = [c] \<and> logged c = [] \<and> rejection c = Some e
              \<and> isPermissionDenied e = Inr (JBool True)
            \<longrightarrow> fst (simulateCalls r st) = Inr (js ''Unable to reproduce error in simulation''))"
proof -
  have a: "fst (simulateCalls r st) =
           (case call_results (call_runs r) st of
              Inl x \<Rightarrow> Inr (js ''Error running simulation: '' @ thrown_text x)
            | Inr vs \<Rightarrow>
                Inr (if contributed vs = []
                     then js ''Unable to reproduce error in simulation''
                     else join [0x0A, 0x0A] (contributed vs)))"
    by (simp add: simulateCalls_of_body simulateCalls_body_calls [OF assms] split: sum.splits)
  have "fst (simulateCalls r st) = Inr (js ''Unable to reproduce error in simulation'')"
    if "call_runs r = [c]" "logged c = []" "rejection c = Some e"
      "isPermissionDenied e = Inr (JBool True)"
  proof -
    from that(2,3,4) have "fst (simulateCall c st) = Inr (Some [])"
      by (rule denied_without_diagnostics)
    with that(1) have "call_results (call_runs r) st = Inr [Some []]"
      by (cases "simulateCall c st") simp
    with a show ?thesis by simp
  qed
  with a show ?thesis by blast
qed

theorem C4_result_of_calls_witness:
  "fst (simulateCalls
         \<lparr>unauth_throws = None, auth_rejects = None,
          call_runs =
            [\<lparr>logged = [],
              rejection = Some (ErrorObj (JStr (js ''PERMISSION_DENIED'')) JUndefined
                                  (js ''Error: PERMISSION_DENIED''))\<rparr>]\<rparr>
         fresh)
     = Inr (js ''Unable to reproduce error in simulation'')
   \<and> fst (simulateCalls
         \<lparr>unauth_throws = None, auth_rejects = None,
          call_runs =
            [\<lparr>logged = [[js ''FIREBASE:   /foo:.write:x''], [js ''FIREBASE:     => false'']],
              rejection = Some (ErrorObj (JStr (js ''PERMISSION_DENIED'')) JUndefined
                                  (js ''Error: PERMISSION_DENIED''))\<rparr>,
             \<lparr>logged = [],
              rejection = Some (ErrorObj (JStr (js ''network_error'')) JUndefined
                                  (js ''Error: boom''))\<rparr>]\<rparr>
         fresh)
     = Inr (0x20 # ballot_x # js '' write /foo'' @ [0x0A, 0x0A]
              @ js ''Got a different error in simulation: Error: boom'')"
proof -
  let ?denied = "ErrorObj (JStr (js ''PERMISSION_DENIED'')) JUndefined (js ''Error: PERMISSION_DENIED'')"
  let ?c1 = "\<lparr>logged = [], rejection = Some ?denied\<rparr>"
  let ?r1 = "\<lparr>unauth_throws = None, auth_rejects = None, call_runs = [?c1]\<rparr>"
  let ?r2 = "\<lparr>unauth_throws = None, auth_rejects = None,
          call_runs =
            [\<lparr>logged = [[js ''FIREBASE:   /foo:.write:x''], [js ''FIREBASE:     => false'']],
              rejection = Some ?denied\<rparr>,
             \<lparr>logged = [],
              rejection = Some (ErrorObj (JStr (js ''network_error'')) JUndefined
                                  (js ''Error: boom''))\<rparr>]\<rparr>"
  have d: "isPermissionDenied ?denied = Inr (JBool True)"
    by code_simp
  have k: "call_results (call_runs ?r2) fresh =
      Inr [Some (0x20 # ballot_x # js '' write /foo''),
           Some (js ''Got a different error in simulation: Error: boom'')]"
    by code_simp
  have p1: "unauth_throws ?r1 = None" "auth_rejects ?r1 = None"
    by simp_all
  have q1: "call_runs ?r1 = [?c1] \<and> logged ?c1 = [] \<and> rejection ?c1 = Some ?denied
      \<and> isPermissionDenied ?denied = Inr (JBool True)"
    using d by simp
  from C4_result_of_calls [OF p1, where c = ?c1 and e = ?denied and st = fresh] q1
  have one: "fst (simulateCalls ?r1 fresh) = Inr (js ''Unable to reproduce error in simulation'')"
    by blast
  have p2: "unauth_throws ?r2 = None" "auth_rejects ?r2 = None"
    by simp_all
  from C4_result_of_calls [OF p2, where c = ?c1 and e = ?denied and st = fresh]
  have "fst (simulateCalls ?r2 fresh) =
           (case call_results (call_runs ?r2) fresh of
              Inl x \<Rightarrow> Inr (js ''Error running simulation: '' @ thrown_text x)
            | Inr vs \<Rightarrow>
                Inr (if contributed vs = []
                     then js ''Unable to reproduce error in simulation''
                     else join [0x0A, 0x0A] (contributed vs)))"
    by (rule conjunct1)
  then have "fst (simulateCalls ?r2 fresh) =
           (case Inr [Some (0x20 # ballot_x # js '' write /foo''),
                      Some (js ''Got a different error in simulation: Error: boom'')] of
              Inl x \<Rightarrow> Inr (js ''Error running simulation: '' @ thrown_text x)
            | Inr vs \<Rightarrow>
                Inr (if contributed vs = []
                     then js ''Unable to reproduce error in simulation''
                     else join [0x0A, 0x0A] (contributed vs)))"
    by (simp only: k)
  then have two: "fst (simulateCalls ?r2 fresh)
     = Inr (0x20 # ballot_x # js '' write /foo'' @ [0x0A, 0x0A]
              @ js ''Got a different error in simulation: Error: boom'')"
    by (simp add: js_def)
  from one two show ?thesis by (rule conjI)
qed




section \<open>The queue\<close>

text \<open>
  C6. Chaining a task on the queue gives a promise that first settles the queue as it
  was, whatever its outcome, then runs the task in the state this leaves, and settles
  as the task does; so it is when the queue rejects, the rejection being swallowed by
  the \<open>catch\<close>. So the tasks submitted
  one after the other all run, one after the other in the order of submission, each in
  the state its predecessor left, and the promise of the last submitted task settles
  with that task's own outcome. \<open>_simulate\<close> stores the new chain in
  \<open>simulationQueue\<close> and returns the same chain.
\<close>

theorem C6_queue_runs_tasks_in_order:
  "enqueue queue task w = task (snd (queue w))
   \<and> enqueue (\<lambda>w. (Rejected e, failed w)) task w = task (failed w)
   \<and> snd (enqueue_all queue tasks w) = run_in_order tasks (snd (queue w))
   \<and> enqueue_all queue (tasks @ [task]) w = task (run_in_order tasks (snd (queue w)))
   \<and> fst (simulate databaseUrl (databaseUrl @ path) r ms)
       = Inr (enqueue (simulationQueue ms) (simulateCalls_task r))
   \<and> simulationQueue (snd (simulate databaseUrl (databaseUrl @ path) r ms))
       = enqueue (simulationQueue ms) (simulateCalls_task r)"
proof -
  have a: "enqueue queue task w = task (snd (queue w))"
    by (rule enqueue_settles)
  have a': "enqueue (\<lambda>w. (Rejected e, failed w)) task w = task (failed w)"
    by (simp add: enqueue_settles)
  have b: "snd (enqueue_all queue tasks w) = run_in_order tasks (snd (queue w))"
    by (rule enqueue_all_runs)
  have "enqueue_all queue (tasks @ [task]) w = enqueue (enqueue_all queue tasks) task w"
    by (simp add: enqueue_all_def)
  with b have c: "enqueue_all queue (tasks @ [task]) w = task (run_in_order tasks (snd (queue w)))"
    by (simp add: enqueue_settles)
  have d: "fst (simulate databaseUrl (databaseUrl @ path) r ms)
       = Inr (enqueue (simulationQueue ms) (simulateCalls_task r))"
    by (simp add: simulate_def startsWith_def Let_def)
  have e: "simulationQueue (snd (simulate databaseUrl (databaseUrl @ path) r ms))
       = enqueue (simulationQueue ms) (simulateCalls_task r)"
    by (simp add: simulate_def startsWith_def Let_def)
  from a a' b c d e show ?thesis by blast
qed

end
